theory Spec2Isabelle
  imports Main
begin

section \<open>Data model\<close>

text \<open>
  The time-scale facade \<open>TimeScaleApi\<close> translates between horizontal-scale items
  (\<open>'h\<close>, the caller's time values), internal items (\<open>'i\<close>), logical indices and pixel
  coordinates (\<open>'c\<close>). JavaScript numbers that carry indices (\<open>TimePointIndex\<close>,
  \<open>Logical\<close>) and keys (\<open>InternalHorzScaleItemKey\<close>) are integers here; the casts
  \<open>as TimePointIndex\<close> and \<open>as unknown as Logical\<close> of the source are the identity.
\<close>

type_synonym TimePointIndex = int
type_synonym Logical = int
type_synonym InternalHorzScaleItemKey = int

record ('h, 'i) TimeScalePoint =
  time :: 'i
  originalTime :: 'h

text \<open>\<open>Range<T>\<close> of the source: \<open>{ from: T, to: T }\<close>.\<close>

record 'n Range =
  range_from :: 'n
  range_to :: 'n

text \<open>
  \<open>IHorzScaleBehavior\<close>, the key strategy the facade consumes: only the two methods the
  facade calls.
\<close>

record ('h, 'i) IHorzScaleBehavior =
  convertHorzItemToInternal :: "'h \<Rightarrow> 'i"
  key :: "'i \<Rightarrow> InternalHorzScaleItemKey"

text \<open>
  \<open>TimeScale\<close>, read by the facade. The class itself is not part of the sources at hand;
  its getters are fields. \<open>points\<close> is the backing index table (logical index to time
  point, absent where an index has no entry), \<open>visibleStrictRange\<close> the pair
  \<open>(left(), right())\<close> of the strict range or \<open>None\<close> for \<open>null\<close>.
\<close>

record ('h, 'i, 'c) TimeScale =
  points :: "(TimePointIndex \<times> ('h, 'i) TimeScalePoint) list"
  visibleStrictRange :: "(TimePointIndex \<times> TimePointIndex) option"
  visibleTimeRange :: "('h, 'i) TimeScalePoint Range option"
  visibleLogicalRange :: "(Logical \<times> Logical) option"
  indexToCoordinate :: "TimePointIndex \<Rightarrow> 'c"
  coordinateToIndex :: "'c \<Rightarrow> TimePointIndex"
  isEmpty :: bool

text \<open>
  Modelled from the spec: \<open>TimeScale.indexToTimeScalePoint\<close>, which is not among the
  sources. The backing table is an association from logical index to time point or
  absent; an index without an entry is a gap.
\<close>

definition indexToTimeScalePoint ::
  "('h, 'i, 'c) TimeScale \<Rightarrow> TimePointIndex \<Rightarrow> ('h, 'i) TimeScalePoint option" where
  "indexToTimeScalePoint ts i = map_of (points ts) i"

text \<open>
  Modelled from the spec: \<open>TimeScale.timeToIndex\<close>, which is not among the sources. It
  looks up the present entry whose key equals the key of the given internal item; the
  nearest-match policy is kept apart from it, so the flag does not widen the lookup.
\<close>

definition timeToIndex ::
  "('h, 'i) IHorzScaleBehavior \<Rightarrow> ('h, 'i, 'c) TimeScale \<Rightarrow> 'i \<Rightarrow> bool \<Rightarrow> TimePointIndex option" where
  "timeToIndex b ts timePoint flag =
     map_option fst
       (find (\<lambda>(i, p). map_of (points ts) i = Some p \<and> key b (time p) = key b timePoint)
          (points ts))"

text \<open>
  Modelled from the spec: \<open>assert\<close> of \<open>helpers/assertions\<close>, which is not among the
  sources. A failed assertion is a programmer-error fault that stops the caller at once;
  \<open>None\<close> is the assertion passing.
\<close>

datatype error = AssertionFailed string

definition assert :: "bool \<Rightarrow> string \<Rightarrow> error option" where
  "assert condition message = (if condition then None else Some (AssertionFailed message))"

text \<open>
  Modelled from the spec: \<open>Delegate\<close> of \<open>helpers/delegate\<close>, which is not among the
  sources. A delegate holds its listeners in subscription order; \<open>fire\<close> invokes every
  one of them, in that order, with the payload. What a handler of the facade does is
  recorded as the list of its effects: the payload it built, and each listener invoked.
\<close>

type_synonym 'l Delegate = "'l list"

datatype ('l, 'p) effect = Constructed 'p | Invoked 'l 'p

definition hasListeners :: "'l Delegate \<Rightarrow> bool" where
  "hasListeners d = (d \<noteq> [])"

definition fire :: "'l Delegate \<Rightarrow> 'p \<Rightarrow> ('l, 'p) effect list" where
  "fire d payload = map (\<lambda>listener. Invoked listener payload) d"

section \<open>Ranges and logical coordinates\<close>

definition getVisibleRange :: "('h, 'i, 'c) TimeScale \<Rightarrow> 'h Range option" where
  "getVisibleRange ts =
     (case visibleTimeRange ts of
        None \<Rightarrow> None
      | Some timeRange \<Rightarrow>
          Some \<lparr>range_from = originalTime (range_from timeRange),
                range_to = originalTime (range_to timeRange)\<rparr>)"

definition getVisibleLogicalRange :: "('h, 'i, 'c) TimeScale \<Rightarrow> Logical Range option" where
  "getVisibleLogicalRange ts =
     (case visibleLogicalRange ts of
        None \<Rightarrow> None
      | Some (left, right) \<Rightarrow> Some \<lparr>range_from = left, range_to = right\<rparr>)"

text \<open>
  \<open>setVisibleLogicalRange\<close> changes the chart model through
  \<open>ChartModel.setTargetLogicalRange\<close>, which is not among the sources and is a
  parameter here, a function on the model's state \<open>'m\<close>. The result is the state after
  the call and the fault, if any. The range is a \<open>Range<number>\<close>; any linearly ordered
  number type stands for it.
\<close>

definition setVisibleLogicalRange ::
  "('m \<Rightarrow> 'n Range \<Rightarrow> 'm) \<Rightarrow> 'm \<Rightarrow> ('n::linorder) Range \<Rightarrow> 'm \<times> error option" where
  "setVisibleLogicalRange setTargetLogicalRange model rng =
     (case assert (range_from rng \<le> range_to rng)
             ''The from index cannot be after the to index.'' of
        Some e \<Rightarrow> (model, Some e)
      | None \<Rightarrow> (setTargetLogicalRange model rng, None))"

text \<open>
  \<open>logicalToCoordinate\<close> reads the time scale through \<open>this._model.timeScale()\<close>,
  \<open>coordinateToLogical\<close> through \<open>this._timeScale\<close>; the constructor makes them the
  same object.
\<close>

definition logicalToCoordinate :: "('h, 'i, 'c) TimeScale \<Rightarrow> Logical \<Rightarrow> 'c option" where
  "logicalToCoordinate timeScale logical =
     (if isEmpty timeScale then None
      else Some (indexToCoordinate timeScale logical))"

definition coordinateToLogical :: "('h, 'i, 'c) TimeScale \<Rightarrow> 'c \<Rightarrow> Logical option" where
  "coordinateToLogical timeScale x =
     (if isEmpty timeScale then None
      else Some (coordinateToIndex timeScale x))"

section \<open>Change handlers\<close>

definition onVisibleBarsChanged ::
  "'l Delegate \<Rightarrow> ('h, 'i, 'c) TimeScale \<Rightarrow> ('l, 'h Range option) effect list" where
  "onVisibleBarsChanged timeRangeChanged ts =
     (if hasListeners timeRangeChanged then
        (let payload = getVisibleRange ts
         in Constructed payload # fire timeRangeChanged payload)
      else [])"

definition onVisibleLogicalRangeChanged ::
  "'l Delegate \<Rightarrow> ('h, 'i, 'c) TimeScale \<Rightarrow> ('l, Logical Range option) effect list" where
  "onVisibleLogicalRangeChanged logicalRangeChanged ts =
     (if hasListeners logicalRangeChanged then
        (let payload = getVisibleLogicalRange ts
         in Constructed payload # fire logicalRangeChanged payload)
      else [])"

section \<open>Exact lookup\<close>


definition timeToCoordinate ::
  "('h, 'i) IHorzScaleBehavior \<Rightarrow> ('h, 'i, 'c) TimeScale \<Rightarrow> 'h \<Rightarrow> 'c option" where
  "timeToCoordinate b ts tm =
     (let timePoint = convertHorzItemToInternal b tm;
          timePointIndex = timeToIndex b ts timePoint False
      in case timePointIndex of
           None \<Rightarrow> None
         | Some i \<Rightarrow> Some (indexToCoordinate ts i))"

section \<open>Nearest-coordinate resolution\<close>

text \<open>
  The two inner loops that run when the midpoint has no point. \<open>Some c\<close> is
  \<open>return c\<close> from inside the loop, \<open>None\<close> is the loop running to its end.
\<close>

function scan_forward ::
  "('h, 'i, 'c) TimeScale \<Rightarrow> TimePointIndex \<Rightarrow> TimePointIndex \<Rightarrow> 'c option" where
  "scan_forward ts validIndex right =
     (if validIndex \<le> right then
        (case indexToTimeScalePoint ts validIndex of
           Some nextPoint \<Rightarrow> Some (indexToCoordinate ts validIndex)
         | None \<Rightarrow> scan_forward ts (validIndex + 1) right)
      else None)"
  by pat_completeness auto
termination
  by (relation "measure (\<lambda>(ts, validIndex, right). nat (right - validIndex + 1))") auto

function scan_backward ::
  "('h, 'i, 'c) TimeScale \<Rightarrow> TimePointIndex \<Rightarrow> TimePointIndex \<Rightarrow> 'c option" where
  "scan_backward ts validIndex left =
     (if validIndex \<ge> left then
        (case indexToTimeScalePoint ts validIndex of
           Some prevPoint \<Rightarrow> Some (indexToCoordinate ts validIndex)
         | None \<Rightarrow> scan_backward ts (validIndex - 1) left)
      else None)"
  by pat_completeness auto
termination
  by (relation "measure (\<lambda>(ts, validIndex, left). nat (validIndex - left + 1))") auto

text \<open>
  One pass through the body of the binary-search loop, entered with \<open>left \<le> right\<close>:
  it returns from the method, or goes round again with a new window.
\<close>

datatype 'c loop_step = Return "'c option" | Continue TimePointIndex TimePointIndex

definition search_step ::
  "('h, 'i) IHorzScaleBehavior \<Rightarrow> ('h, 'i, 'c) TimeScale \<Rightarrow> InternalHorzScaleItemKey \<Rightarrow>
     TimePointIndex \<Rightarrow> TimePointIndex \<Rightarrow> 'c loop_step" where
  "search_step b ts timeKey left right =
     (let mid = (left + right) div 2 in
      case indexToTimeScalePoint ts mid of
        None \<Rightarrow>
          (case scan_forward ts mid right of
             Some c \<Rightarrow> Return (Some c)
           | None \<Rightarrow>
               (case scan_backward ts (mid - 1) left of
                  Some c \<Rightarrow> Return (Some c)
                | None \<Rightarrow> Return None))
      | Some currentPoint \<Rightarrow>
          (let currentKey = key b (time currentPoint) in
           if currentKey = timeKey then Return (Some (indexToCoordinate ts mid))
           else if currentKey < timeKey then
             (if left = right - 1 then
                (case indexToTimeScalePoint ts right of
                   None \<Rightarrow> Return (Some (indexToCoordinate ts mid))
                 | Some nextPoint \<Rightarrow>
                     (let nextKey = key b (time nextPoint) in
                      Return (Some (indexToCoordinate ts
                        (if abs (currentKey - timeKey) \<le> abs (nextKey - timeKey)
                         then mid else right)))))
              else Continue (mid + 1) right)
           else
             (if left = right - 1 then
                (case indexToTimeScalePoint ts left of
                   None \<Rightarrow> Return (Some (indexToCoordinate ts mid))
                 | Some prevPoint \<Rightarrow>
                     (let prevKey = key b (time prevPoint) in
                      Return (Some (indexToCoordinate ts
                        (if abs (prevKey - timeKey) \<le> abs (currentKey - timeKey)
                         then left else mid)))))
              else Continue left (mid - 1))))"

text \<open>The code after the loop: the closer of the two boundary points.\<close>

definition closest_boundary ::
  "('h, 'i) IHorzScaleBehavior \<Rightarrow> ('h, 'i, 'c) TimeScale \<Rightarrow> InternalHorzScaleItemKey \<Rightarrow>
     TimePointIndex \<Rightarrow> TimePointIndex \<Rightarrow> 'c option" where
  "closest_boundary b ts timeKey left right =
     (let leftPoint = indexToTimeScalePoint ts left;
          rightPoint = indexToTimeScalePoint ts right
      in case (leftPoint, rightPoint) of
           (None, None) \<Rightarrow> None
         | (None, Some rp) \<Rightarrow> Some (indexToCoordinate ts right)
         | (Some lp, None) \<Rightarrow> Some (indexToCoordinate ts left)
         | (Some lp, Some rp) \<Rightarrow>
             (let leftDiff = abs (key b (time lp) - timeKey);
                  rightDiff = abs (key b (time rp) - timeKey)
              in Some (indexToCoordinate ts (if leftDiff \<le> rightDiff then left else right))))"

lemma search_step_shrinks:
  assumes "search_step b ts timeKey left right = Continue l' r'" and "left \<le> right"
  shows "r' - l' < right - left"
  using assms
  by (auto simp: search_step_def Let_def split: option.splits if_splits)

function search ::
  "('h, 'i) IHorzScaleBehavior \<Rightarrow> ('h, 'i, 'c) TimeScale \<Rightarrow> InternalHorzScaleItemKey \<Rightarrow>
     TimePointIndex \<Rightarrow> TimePointIndex \<Rightarrow> 'c option" where
  "search b ts timeKey left right =
     (if left \<le> right then
        (case search_step b ts timeKey left right of
           Return res \<Rightarrow> res
         | Continue l' r' \<Rightarrow> search b ts timeKey l' r')
      else closest_boundary b ts timeKey left right)"
  by pat_completeness auto
termination
proof (relation "measure (\<lambda>(b, ts, timeKey, left, right). nat (right - left + 1))")
  show "wf (measure (\<lambda>(b, ts, timeKey, left, right). nat (right - left + 1)))"
    by simp
next
  fix b :: "('h, 'i) IHorzScaleBehavior" and ts :: "('h, 'i, 'c) TimeScale"
    and timeKey left right l' r' :: int
  assume "left \<le> right" and "search_step b ts timeKey left right = Continue l' r'"
  then have "r' - l' < right - left"
    using search_step_shrinks by blast
  with \<open>left \<le> right\<close>
  show "((b, ts, timeKey, l', r'), (b, ts, timeKey, left, right))
          \<in> measure (\<lambda>(b, ts, timeKey, left, right). nat (right - left + 1))"
    by simp
qed

definition timeToCoordinateRounded ::
  "('h, 'i) IHorzScaleBehavior \<Rightarrow> ('h, 'i, 'c) TimeScale \<Rightarrow> 'h \<Rightarrow> 'c option" where
  "timeToCoordinateRounded b ts tm =
     (case timeToCoordinate b ts tm of
        Some timeToCoordinateResult \<Rightarrow> Some timeToCoordinateResult
      | None \<Rightarrow>
          (let timePoint = convertHorzItemToInternal b tm;
               timeKey = key b timePoint
           in case visibleStrictRange ts of
                None \<Rightarrow> None
              | Some (left, right) \<Rightarrow> search b ts timeKey left right))"

section \<open>Index arithmetic in doubles\<close>

text \<open>
  The loops above add and subtract indices as integers. The source computes with
  JavaScript numbers: every sum and difference is rounded to the nearest double, ties to
  the even mantissa. \<open>to_double x\<close> is the double nearest to the integer \<open>x\<close>: a double
  keeps 53 significant bits, \<open>dropped_bits\<close> counts the low bits that do not fit, and the
  value is rounded to a multiple of two to that power. Only integer values are
  modelled, and no overflow to infinity.
\<close>

function dropped_bits :: "int \<Rightarrow> nat" where
  "dropped_bits x = (if x < 2 ^ 53 then 0 else Suc (dropped_bits (x div 2)))"
  by pat_completeness auto
termination
proof (relation "measure nat")
  show "wf (measure nat)" by simp
next
  fix x :: int
  assume "\<not> x < 2 ^ 53"
  then have "0 < x" by simp
  then have "x div 2 < x" by simp
  with \<open>0 < x\<close> show "(x div 2, x) \<in> measure nat" by simp
qed

definition round_magnitude :: "int \<Rightarrow> int" where
  "round_magnitude x =
     (let q = 2 ^ dropped_bits x;
          m = x div q;
          rest = x mod q
      in if 2 * rest < q then m * q
         else if q < 2 * rest then (m + 1) * q
         else if even m then m * q
         else (m + 1) * q)"

definition to_double :: "int \<Rightarrow> int" where
  "to_double x = (if x < 0 then - round_magnitude (- x) else round_magnitude x)"

definition js_add :: "int \<Rightarrow> int \<Rightarrow> int" where
  "js_add x y = to_double (x + y)"

definition js_sub :: "int \<Rightarrow> int \<Rightarrow> int" where
  "js_sub x y = to_double (x - y)"

text \<open>
  The probes, the loop body, the code after the loop and the method once more, with
  every addition and subtraction of the source rounded (\<open>Math.floor((left + right) / 2)\<close>
  halves the rounded sum exactly and takes the floor). The loops need not end now, so
  each takes a bound on the number of times its condition is tested: \<open>None\<close> is the bound
  running out before the loop is left.
\<close>

fun scan_forward_double ::
  "nat \<Rightarrow> ('h, 'i, 'c) TimeScale \<Rightarrow> TimePointIndex \<Rightarrow> TimePointIndex \<Rightarrow> 'c option option" where
  "scan_forward_double 0 ts validIndex right = None"
| "scan_forward_double (Suc n) ts validIndex right =
     (if validIndex \<le> right then
        (case indexToTimeScalePoint ts validIndex of
           Some nextPoint \<Rightarrow> Some (Some (indexToCoordinate ts validIndex))
         | None \<Rightarrow> scan_forward_double n ts (js_add validIndex 1) right)
      else Some None)"

fun scan_backward_double ::
  "nat \<Rightarrow> ('h, 'i, 'c) TimeScale \<Rightarrow> TimePointIndex \<Rightarrow> TimePointIndex \<Rightarrow> 'c option option" where
  "scan_backward_double 0 ts validIndex left = None"
| "scan_backward_double (Suc n) ts validIndex left =
     (if validIndex \<ge> left then
        (case indexToTimeScalePoint ts validIndex of
           Some prevPoint \<Rightarrow> Some (Some (indexToCoordinate ts validIndex))
         | None \<Rightarrow> scan_backward_double n ts (js_sub validIndex 1) left)
      else Some None)"

definition search_step_double ::
  "nat \<Rightarrow> ('h, 'i) IHorzScaleBehavior \<Rightarrow> ('h, 'i, 'c) TimeScale \<Rightarrow> InternalHorzScaleItemKey \<Rightarrow>
     TimePointIndex \<Rightarrow> TimePointIndex \<Rightarrow> 'c loop_step option" where
  "search_step_double n b ts timeKey left right =
     (let mid = js_add left right div 2 in
      case indexToTimeScalePoint ts mid of
        None \<Rightarrow>
          (case scan_forward_double n ts mid right of
             None \<Rightarrow> None
           | Some (Some c) \<Rightarrow> Some (Return (Some c))
           | Some None \<Rightarrow>
               (case scan_backward_double n ts (js_sub mid 1) left of
                  None \<Rightarrow> None
                | Some (Some c) \<Rightarrow> Some (Return (Some c))
                | Some None \<Rightarrow> Some (Return None)))
      | Some currentPoint \<Rightarrow>
          Some
            (let currentKey = key b (time currentPoint) in
             if currentKey = timeKey then Return (Some (indexToCoordinate ts mid))
             else if currentKey < timeKey then
               (if left = js_sub right 1 then
                  (case indexToTimeScalePoint ts right of
                     None \<Rightarrow> Return (Some (indexToCoordinate ts mid))
                   | Some nextPoint \<Rightarrow>
                       (let nextKey = key b (time nextPoint) in
                        Return (Some (indexToCoordinate ts
                          (if abs (js_sub currentKey timeKey) \<le> abs (js_sub nextKey timeKey)
                           then mid else right)))))
                else Continue (js_add mid 1) right)
             else
               (if left = js_sub right 1 then
                  (case indexToTimeScalePoint ts left of
                     None \<Rightarrow> Return (Some (indexToCoordinate ts mid))
                   | Some prevPoint \<Rightarrow>
                       (let prevKey = key b (time prevPoint) in
                        Return (Some (indexToCoordinate ts
                          (if abs (js_sub prevKey timeKey) \<le> abs (js_sub currentKey timeKey)
                           then left else mid)))))
                else Continue left (js_sub mid 1))))"

definition closest_boundary_double ::
  "('h, 'i) IHorzScaleBehavior \<Rightarrow> ('h, 'i, 'c) TimeScale \<Rightarrow> InternalHorzScaleItemKey \<Rightarrow>
     TimePointIndex \<Rightarrow> TimePointIndex \<Rightarrow> 'c option" where
  "closest_boundary_double b ts timeKey left right =
     (let leftPoint = indexToTimeScalePoint ts left;
          rightPoint = indexToTimeScalePoint ts right
      in case (leftPoint, rightPoint) of
           (None, None) \<Rightarrow> None
         | (None, Some rp) \<Rightarrow> Some (indexToCoordinate ts right)
         | (Some lp, None) \<Rightarrow> Some (indexToCoordinate ts left)
         | (Some lp, Some rp) \<Rightarrow>
             (let leftDiff = abs (js_sub (key b (time lp)) timeKey);
                  rightDiff = abs (js_sub (key b (time rp)) timeKey)
              in Some (indexToCoordinate ts (if leftDiff \<le> rightDiff then left else right))))"

fun search_double ::
  "nat \<Rightarrow> nat \<Rightarrow> ('h, 'i) IHorzScaleBehavior \<Rightarrow> ('h, 'i, 'c) TimeScale \<Rightarrow>
     InternalHorzScaleItemKey \<Rightarrow> TimePointIndex \<Rightarrow> TimePointIndex \<Rightarrow> 'c option option" where
  "search_double 0 n b ts timeKey left right = None"
| "search_double (Suc k) n b ts timeKey left right =
     (if left \<le> right then
        (case search_step_double n b ts timeKey left right of
           None \<Rightarrow> None
         | Some (Return res) \<Rightarrow> Some res
         | Some (Continue l' r') \<Rightarrow> search_double k n b ts timeKey l' r')
      else Some (closest_boundary_double b ts timeKey left right))"

definition timeToCoordinateRounded_double ::
  "nat \<Rightarrow> ('h, 'i) IHorzScaleBehavior \<Rightarrow> ('h, 'i, 'c) TimeScale \<Rightarrow> 'h \<Rightarrow> 'c option option" where
  "timeToCoordinateRounded_double n b ts tm =
     (case timeToCoordinate b ts tm of
        Some timeToCoordinateResult \<Rightarrow> Some (Some timeToCoordinateResult)
      | None \<Rightarrow>
          (let timePoint = convertHorzItemToInternal b tm;
               timeKey = key b timePoint
           in case visibleStrictRange ts of
                None \<Rightarrow> Some None
              | Some (left, right) \<Rightarrow> search_double n n b ts timeKey left right))"

section \<open>Example time scales\<close>

text \<open>
  A behaviour whose items are their own keys, and time scales given by their
  (index, key) pairs, with ten pixels per index.
\<close>

definition ex_behavior :: "(int, int) IHorzScaleBehavior" where
  "ex_behavior = \<lparr>convertHorzItemToInternal = (\<lambda>t. t), key = (\<lambda>t. t)\<rparr>"

definition ex_point :: "int \<Rightarrow> (int, int) TimeScalePoint" where
  "ex_point k = \<lparr>time = k, originalTime = k\<rparr>"

definition ex_scale :: "(int \<times> int) list \<Rightarrow> (int \<times> int) option \<Rightarrow> (int, int, int) TimeScale" where
  "ex_scale kvs vr =
     \<lparr>points = map (\<lambda>(i, k). (i, ex_point k)) kvs,
      visibleStrictRange = vr,
      visibleTimeRange = None,
      visibleLogicalRange = None,
      indexToCoordinate = (\<lambda>i. 10 * i),
      coordinateToIndex = (\<lambda>x. x div 10),
      isEmpty = (kvs = [])\<rparr>"

definition scale_1_5_9 :: "(int, int, int) TimeScale" where
  "scale_1_5_9 = ex_scale [(0, 1), (1, 5), (2, 9)] (Some (0, 2))"





definition scale_empty :: "(int, int, int) TimeScale" where
  "scale_empty = ex_scale [] None"

definition scale_ranges :: "(int, int, int) TimeScale" where
  "scale_ranges =
     (ex_scale [(0, 1), (1, 5), (2, 9)] (Some (0, 2)))
       \<lparr>visibleTimeRange := Some \<lparr>range_from = ex_point 1, range_to = ex_point 9\<rparr>,
        visibleLogicalRange := Some (0, 2)\<rparr>"

definition scale_2_53 :: "(int, int, int) TimeScale" where
  "scale_2_53 = ex_scale [(2 ^ 53, 1)] (Some (2 ^ 53, 2 ^ 53))"

text \<open>A stand-in for \<open>setTargetLogicalRange\<close> that records every range it is given.\<close>

definition log_target :: "'n Range list \<Rightarrow> 'n Range \<Rightarrow> 'n Range list" where
  "log_target calls rng = calls @ [rng]"

lemmas ex_defs = ex_scale_def ex_behavior_def ex_point_def

section \<open>The gap scans\<close>

text \<open>The recursive equations are unfolded by hand, one call at a time.\<close>

declare scan_forward.simps [simp del] scan_backward.simps [simp del] search.simps [simp del]





section \<open>Unfolding the binary search\<close>

lemma search_crossed:
  "right < left \<Longrightarrow> search b ts timeKey left right = closest_boundary b ts timeKey left right"
  by (simp add: search.simps [of b ts timeKey left right])

lemma search_Return:
  "left \<le> right \<Longrightarrow> search_step b ts timeKey left right = Return res \<Longrightarrow>
     search b ts timeKey left right = res"
  by (simp add: search.simps [of b ts timeKey left right])

lemma search_Continue:
  "left \<le> right \<Longrightarrow> search_step b ts timeKey left right = Continue l' r' \<Longrightarrow>
     search b ts timeKey left right = search b ts timeKey l' r'"
  by (simp add: search.simps [of b ts timeKey left right])

lemma search_step_Continue_cases:
  assumes "search_step b ts timeKey left right = Continue l' r'"
  shows "indexToTimeScalePoint ts ((left + right) div 2) \<noteq> None
         \<and> left \<noteq> right - 1
         \<and> ((l' = (left + right) div 2 + 1 \<and> r' = right)
            \<or> (l' = left \<and> r' = (left + right) div 2 - 1))"
  using assms
  by (auto simp: search_step_def Let_def split: option.splits if_splits)




section \<open>The exact lookup of the backing table\<close>

lemma timeToIndex_Some:
  assumes "timeToIndex b ts timePoint flag = Some i"
  shows "\<exists>p. indexToTimeScalePoint ts i = Some p \<and> key b (time p) = key b timePoint"
proof -
  from assms obtain e where
    f: "find (\<lambda>(i, p). map_of (points ts) i = Some p \<and> key b (time p) = key b timePoint)
          (points ts) = Some e" and i: "i = fst e"
    by (auto simp: timeToIndex_def)
  from f have "(\<lambda>(i, p). map_of (points ts) i = Some p \<and> key b (time p) = key b timePoint) e"
    by (auto simp: find_Some_iff)
  with i show ?thesis
    by (cases e) (auto simp: indexToTimeScalePoint_def)
qed

lemma timeToIndex_None_iff:
  "timeToIndex b ts timePoint flag = None \<longleftrightarrow>
     \<not> (\<exists>i p. indexToTimeScalePoint ts i = Some p \<and> key b (time p) = key b timePoint)"
proof
  assume "timeToIndex b ts timePoint flag = None"
  then have none: "\<not> (\<exists>e. e \<in> set (points ts) \<and>
      (\<lambda>(i, p). map_of (points ts) i = Some p \<and> key b (time p) = key b timePoint) e)"
    by (simp add: timeToIndex_def find_None_iff)
  show "\<not> (\<exists>i p. indexToTimeScalePoint ts i = Some p \<and> key b (time p) = key b timePoint)"
  proof
    assume "\<exists>i p. indexToTimeScalePoint ts i = Some p \<and> key b (time p) = key b timePoint"
    then obtain i p where ip: "map_of (points ts) i = Some p" "key b (time p) = key b timePoint"
      by (auto simp: indexToTimeScalePoint_def)
    then have "(i, p) \<in> set (points ts)" by (simp add: map_of_SomeD)
    with ip none show False by blast
  qed
next
  assume "\<not> (\<exists>i p. indexToTimeScalePoint ts i = Some p \<and> key b (time p) = key b timePoint)"
  then show "timeToIndex b ts timePoint flag = None"
    by (auto simp: timeToIndex_def find_None_iff indexToTimeScalePoint_def)
qed

section \<open>Rounding to a double\<close>

declare dropped_bits.simps [simp del]


lemma dropped_bits_small: "x < 2 ^ 53 \<Longrightarrow> dropped_bits x = 0"
  by (simp add: dropped_bits.simps [of x])

lemma dropped_bits_one: "2 ^ 53 \<le> x \<Longrightarrow> x < 2 ^ 54 \<Longrightarrow> dropped_bits x = 1"
  by (simp add: dropped_bits.simps [of x] dropped_bits_small)

lemma round_magnitude_small: "0 \<le> x \<Longrightarrow> x < 2 ^ 53 \<Longrightarrow> round_magnitude x = x"
  by (simp add: round_magnitude_def dropped_bits_small)


lemma round_magnitude_next:
  assumes "2 ^ 53 \<le> x" "x < 2 ^ 54"
  shows "even (round_magnitude x) \<and> x \<le> round_magnitude x + 1 \<and> round_magnitude x \<le> x + 1
         \<and> (even x \<longrightarrow> round_magnitude x = x)"
proof -
  have q: "dropped_bits x = 1" using assms by (rule dropped_bits_one)
  have "x mod 2 = 0 \<or> x mod 2 = 1" by arith
  then show ?thesis
  proof
    assume e: "x mod 2 = 0"
    then have "2 * (x div 2) = x" by arith
    with e show ?thesis
      by (simp add: round_magnitude_def q Let_def)
  next
    assume o: "x mod 2 = 1"
    then have odd: "odd x" by presburger
    have x: "2 * (x div 2) + 1 = x" using o by arith
    show ?thesis
    proof (cases "even (x div 2)")
      case True
      with o odd x show ?thesis
        by (simp add: round_magnitude_def q Let_def) arith
    next
      case False
      with o odd x show ?thesis
        by (simp add: round_magnitude_def q Let_def) arith
    qed
  qed
qed

lemma to_double_exact:
  assumes "- (2 ^ 53) \<le> x" "x \<le> 2 ^ 53"
  shows "to_double x = x"
proof -
  have top: "round_magnitude (2 ^ 53) = 2 ^ 53"
    using round_magnitude_next [of "2 ^ 53"] by simp
  show ?thesis
  proof (cases "x < 0")
    case True
    show ?thesis
    proof (cases "x = - (2 ^ 53)")
      case True
      then show ?thesis using top by (simp add: to_double_def)
    next
      case False
      with assms True have "0 \<le> - x" "- x < 2 ^ 53" by simp_all
      then have "round_magnitude (- x) = - x" by (rule round_magnitude_small)
      with True show ?thesis by (simp add: to_double_def)
    qed
  next
    case False
    show ?thesis
    proof (cases "x = 2 ^ 53")
      case True
      then show ?thesis using top by (simp add: to_double_def)
    next
      case ne: False
      with assms False have "0 \<le> x" "x < 2 ^ 53" by simp_all
      then have "round_magnitude x = x" by (rule round_magnitude_small)
      with False show ?thesis by (simp add: to_double_def)
    qed
  qed
qed

lemma to_double_near:
  assumes "- (2 ^ 54) < x" "x < 2 ^ 54"
  shows "x - 1 \<le> to_double x \<and> to_double x \<le> x + 1
         \<and> (to_double x = x \<or> even (to_double x))"
proof (cases "- (2 ^ 53) \<le> x \<and> x \<le> 2 ^ 53")
  case True
  then show ?thesis by (simp add: to_double_exact)
next
  case False
  show ?thesis
  proof (cases "x < 0")
    case True
    with False assms have "2 ^ 53 \<le> - x" "- x < 2 ^ 54" by simp_all
    from round_magnitude_next [OF this] True show ?thesis
      by (simp add: to_double_def)
  next
    case nonneg: False
    with False assms have "2 ^ 53 \<le> x" "x < 2 ^ 54" by simp_all
    from round_magnitude_next [OF this] nonneg show ?thesis
      by (simp add: to_double_def)
  qed
qed

lemma mid_in_window:
  assumes "- (2 ^ 53) < left" "left \<le> right" "right < 2 ^ 53"
  shows "left \<le> js_add left right div 2 \<and> js_add left right div 2 \<le> right"
proof -
  let ?s = "to_double (left + right)"
  have "- (2 ^ 54) < left + right" "left + right < 2 ^ 54"
    using assms by simp_all
  from to_double_near [OF this]
  have near: "left + right - 1 \<le> ?s" "?s \<le> left + right + 1"
    and shape: "?s = left + right \<or> even ?s"
    by simp_all
  from shape show ?thesis
  proof
    assume "?s = left + right"
    moreover have "left \<le> (left + right) div 2 \<and> (left + right) div 2 \<le> right"
      using assms by arith
    ultimately show ?thesis by (simp add: js_add_def)
  next
    assume e: "even ?s"
    then obtain h where h: "?s = 2 * h" by (auto elim: evenE)
    from h near assms have "left \<le> h \<and> h \<le> right" by arith
    with h show ?thesis by (simp add: js_add_def)
  qed
qed

section \<open>The loops in double arithmetic\<close>

lemma scan_forward_double_returns:
  "right < 2 ^ 53 \<Longrightarrow> - (2 ^ 53) \<le> v \<Longrightarrow> nat (right - v + 1) < n \<Longrightarrow>
     scan_forward_double n ts v right \<noteq> None"
proof (induction n arbitrary: v)
  case 0
  then show ?case by simp
next
  case (Suc n)
  show ?case
  proof (cases "v \<le> right")
    case False
    then show ?thesis by simp
  next
    case True
    with Suc.prems have "js_add v 1 = v + 1"
      by (simp add: js_add_def to_double_exact)
    moreover have "scan_forward_double n ts (v + 1) right \<noteq> None"
      using Suc.prems True by (intro Suc.IH) simp_all
    ultimately show ?thesis
      using True by (simp split: option.splits)
  qed
qed

lemma scan_backward_double_returns:
  "- (2 ^ 53) < left \<Longrightarrow> v \<le> 2 ^ 53 \<Longrightarrow> nat (v - left + 1) < n \<Longrightarrow>
     scan_backward_double n ts v left \<noteq> None"
proof (induction n arbitrary: v)
  case 0
  then show ?case by simp
next
  case (Suc n)
  show ?case
  proof (cases "left \<le> v")
    case False
    then show ?thesis by simp
  next
    case True
    with Suc.prems have "js_sub v 1 = v - 1"
      by (simp add: js_sub_def to_double_exact)
    moreover have "scan_backward_double n ts (v - 1) left \<noteq> None"
      using Suc.prems True by (intro Suc.IH) simp_all
    ultimately show ?thesis
      using True by (simp split: option.splits)
  qed
qed

lemma search_step_double_returns:
  assumes "- (2 ^ 53) < left" "left \<le> right" "right < 2 ^ 53"
    and "nat (right - left + 1) < n"
  shows "search_step_double n b ts timeKey left right \<noteq> None"
proof -
  let ?mid = "js_add left right div 2"
  have mid: "left \<le> ?mid" "?mid \<le> right"
    using mid_in_window [OF assms(1-3)] by simp_all
  have f: "scan_forward_double n ts ?mid right \<noteq> None"
    using assms mid by (intro scan_forward_double_returns) simp_all
  have m1: "js_sub ?mid 1 = ?mid - 1"
    using assms mid by (simp add: js_sub_def to_double_exact)
  have g: "scan_backward_double n ts (?mid - 1) left \<noteq> None"
    using assms mid by (intro scan_backward_double_returns) simp_all
  from f g m1 show ?thesis
    by (auto simp: search_step_double_def Let_def split: option.splits)
qed

lemma search_step_double_Continue:
  assumes "- (2 ^ 53) < left" "left \<le> right" "right < 2 ^ 53"
    and "search_step_double n b ts timeKey left right = Some (Continue l' r')"
  shows "left \<le> js_add left right div 2 \<and> js_add left right div 2 \<le> right
         \<and> ((l' = js_add left right div 2 + 1 \<and> r' = right)
            \<or> (l' = left \<and> r' = js_add left right div 2 - 1))"
proof -
  let ?mid = "js_add left right div 2"
  have mid: "left \<le> ?mid" "?mid \<le> right"
    using mid_in_window [OF assms(1-3)] by simp_all
  have p1: "js_add ?mid 1 = ?mid + 1"
    using assms mid by (simp add: js_add_def to_double_exact)
  have m1: "js_sub ?mid 1 = ?mid - 1"
    using assms mid by (simp add: js_sub_def to_double_exact)
  from assms(4) have "(l' = js_add ?mid 1 \<and> r' = right) \<or> (l' = left \<and> r' = js_sub ?mid 1)"
    by (auto simp: search_step_double_def Let_def split: option.splits if_splits)
  with p1 m1 mid show ?thesis by simp
qed

lemma search_double_returns:
  "- (2 ^ 53) < left \<Longrightarrow> right < 2 ^ 53 \<Longrightarrow> nat (right - left + 1) < k \<Longrightarrow>
     nat (right - left + 1) < n \<Longrightarrow> search_double k n b ts timeKey left right \<noteq> None"
proof (induction k arbitrary: left right)
  case 0
  then show ?case by simp
next
  case (Suc k)
  show ?case
  proof (cases "left \<le> right")
    case False
    then show ?thesis by simp
  next
    case True
    have ret: "search_step_double n b ts timeKey left right \<noteq> None"
      using Suc.prems True by (intro search_step_double_returns) simp_all
    then obtain st where st: "search_step_double n b ts timeKey left right = Some st"
      by auto
    show ?thesis
    proof (cases st)
      case (Return res)
      with st True show ?thesis by simp
    next
      case (Continue l' r')
      with st have c: "search_step_double n b ts timeKey left right = Some (Continue l' r')"
        by simp
      from search_step_double_Continue [OF Suc.prems(1) True Suc.prems(2) c]
      have w: "- (2 ^ 53) < l'" "r' < 2 ^ 53" "r' - l' < right - left"
        using Suc.prems True by auto
      have "search_double k n b ts timeKey l' r' \<noteq> None"
        using w Suc.prems True by (intro Suc.IH) simp_all
      with c True show ?thesis by simp
    qed
  qed
qed

lemma stuck_step:
  "search_step_double n ex_behavior scale_2_53 4 (2 ^ 53) (2 ^ 53)
     = Some (Continue (2 ^ 53) (2 ^ 53))"
proof -
  have a: "js_add (2 ^ 53) (2 ^ 53) = 2 ^ 54"
    by (simp add: js_add_def to_double_def round_magnitude_def
        dropped_bits.simps [of "18014398509481984"] dropped_bits.simps [of "9007199254740992"]
        dropped_bits.simps [of "4503599627370496"])
  have b: "js_sub (2 ^ 53) 1 = 2 ^ 53 - 1"
    by (simp add: js_sub_def to_double_exact)
  have c: "js_add (2 ^ 53) 1 = 2 ^ 53"
    by (simp add: js_add_def to_double_def round_magnitude_def
        dropped_bits.simps [of "9007199254740993"] dropped_bits.simps [of "4503599627370496"])
  from a b c show ?thesis
    by (simp add: search_step_double_def indexToTimeScalePoint_def scale_2_53_def ex_defs)
qed

lemma never_returns_at_2_53:
  "search_double k n ex_behavior scale_2_53 4 (2 ^ 53) (2 ^ 53) = None"
  by (induction k) (simp_all add: stuck_step [simplified])

section \<open>The integer loops are the double loops on small windows\<close>

text \<open>
  Where the window lies within \<open>-2^52\<close> and \<open>2^52\<close> and the key distances are at most
  \<open>2^53\<close>, no sum or difference of the source is rounded, and the loops in double
  arithmetic compute what the integer loops compute.
\<close>

lemma scan_forward_double_agrees:
  "right < 2 ^ 53 \<Longrightarrow> - (2 ^ 53) \<le> v \<Longrightarrow> nat (right - v + 1) < n \<Longrightarrow>
     scan_forward_double n ts v right = Some (scan_forward ts v right)"
proof (induction n arbitrary: v)
  case 0
  then show ?case by simp
next
  case (Suc n)
  show ?case
  proof (cases "v \<le> right")
    case False
    then show ?thesis by (simp add: scan_forward.simps [of ts v right])
  next
    case True
    with Suc.prems have "js_add v 1 = v + 1"
      by (simp add: js_add_def to_double_exact)
    moreover have "scan_forward_double n ts (v + 1) right = Some (scan_forward ts (v + 1) right)"
      using Suc.prems True by (intro Suc.IH) simp_all
    ultimately show ?thesis
      using True by (simp add: scan_forward.simps [of ts v right] split: option.splits)
  qed
qed

lemma scan_backward_double_agrees:
  "- (2 ^ 53) < left \<Longrightarrow> v \<le> 2 ^ 53 \<Longrightarrow> nat (v - left + 1) < n \<Longrightarrow>
     scan_backward_double n ts v left = Some (scan_backward ts v left)"
proof (induction n arbitrary: v)
  case 0
  then show ?case by simp
next
  case (Suc n)
  show ?case
  proof (cases "left \<le> v")
    case False
    then show ?thesis by (simp add: scan_backward.simps [of ts v left])
  next
    case True
    with Suc.prems have "js_sub v 1 = v - 1"
      by (simp add: js_sub_def to_double_exact)
    moreover have "scan_backward_double n ts (v - 1) left = Some (scan_backward ts (v - 1) left)"
      using Suc.prems True by (intro Suc.IH) simp_all
    ultimately show ?thesis
      using True by (simp add: scan_backward.simps [of ts v left] split: option.splits)
  qed
qed

definition exact_key_distances ::
  "('h, 'i) IHorzScaleBehavior \<Rightarrow> ('h, 'i, 'c) TimeScale \<Rightarrow> InternalHorzScaleItemKey \<Rightarrow> bool" where
  "exact_key_distances b ts timeKey \<longleftrightarrow>
     list_all (\<lambda>(i, p). abs (key b (time p) - timeKey) \<le> 2 ^ 53) (points ts)"

lemma exact_key_distance:
  assumes "exact_key_distances b ts timeKey" "indexToTimeScalePoint ts i = Some p"
  shows "js_sub (key b (time p)) timeKey = key b (time p) - timeKey"
proof -
  from assms(2) have "(i, p) \<in> set (points ts)"
    by (simp add: indexToTimeScalePoint_def map_of_SomeD)
  with assms(1) have "abs (key b (time p) - timeKey) \<le> 2 ^ 53"
    by (auto simp: exact_key_distances_def list_all_iff)
  then show ?thesis
    by (simp add: js_sub_def to_double_exact)
qed

lemma closest_boundary_double_agrees:
  assumes "exact_key_distances b ts timeKey"
  shows "closest_boundary_double b ts timeKey left right = closest_boundary b ts timeKey left right"
  using exact_key_distance [OF assms]
  by (auto simp: closest_boundary_double_def closest_boundary_def Let_def split: option.splits)

lemma search_step_double_agrees:
  assumes keys: "exact_key_distances b ts timeKey"
    and win: "- (2 ^ 52) \<le> left" "left \<le> right" "right \<le> 2 ^ 52"
    and fuel: "nat (right - left + 1) < n"
  shows "search_step_double n b ts timeKey left right = Some (search_step b ts timeKey left right)"
proof -
  let ?mid = "(left + right) div 2"
  have sum: "js_add left right = left + right"
    using win by (simp add: js_add_def to_double_exact)
  have mid: "left \<le> ?mid" "?mid \<le> right"
    using win by auto
  have p1: "js_add ?mid 1 = ?mid + 1"
    using win mid by (simp add: js_add_def to_double_exact)
  have m1: "js_sub ?mid 1 = ?mid - 1"
    using win mid by (simp add: js_sub_def to_double_exact)
  have r1: "js_sub right 1 = right - 1"
    using win by (simp add: js_sub_def to_double_exact)
  have f: "scan_forward_double n ts ?mid right = Some (scan_forward ts ?mid right)"
    using win mid fuel by (intro scan_forward_double_agrees) simp_all
  have g: "scan_backward_double n ts (?mid - 1) left = Some (scan_backward ts (?mid - 1) left)"
    using win mid fuel by (intro scan_backward_double_agrees) simp_all
  show ?thesis
  proof (cases "indexToTimeScalePoint ts ?mid")
    case None
    with sum m1 f g show ?thesis
      by (simp add: search_step_double_def search_step_def Let_def split: option.splits)
  next
    case (Some cur)
    note d = exact_key_distance [OF keys]
    from Some sum p1 m1 r1 d [OF Some] show ?thesis
      by (auto simp: search_step_double_def search_step_def Let_def d split: option.splits)
  qed
qed

lemma search_double_agrees:
  assumes keys: "exact_key_distances b ts timeKey"
  shows "- (2 ^ 52) \<le> left \<Longrightarrow> right \<le> 2 ^ 52 \<Longrightarrow> nat (right - left + 1) < k \<Longrightarrow>
     nat (right - left + 1) < n \<Longrightarrow>
     search_double k n b ts timeKey left right = Some (search b ts timeKey left right)"
proof (induction k arbitrary: left right)
  case 0
  then show ?case by simp
next
  case (Suc k)
  show ?case
  proof (cases "left \<le> right")
    case False
    then show ?thesis
      by (simp add: search_crossed closest_boundary_double_agrees [OF keys])
  next
    case True
    have st: "search_step_double n b ts timeKey left right
        = Some (search_step b ts timeKey left right)"
      using keys Suc.prems True by (intro search_step_double_agrees) simp_all
    show ?thesis
    proof (cases "search_step b ts timeKey left right")
      case (Return res)
      with st True show ?thesis by (simp add: search_Return)
    next
      case (Continue l' r')
      from search_step_Continue_cases [OF Continue] search_step_shrinks [OF Continue True]
      have w: "- (2 ^ 52) \<le> l'" "r' \<le> 2 ^ 52" "r' - l' < right - left"
        using Suc.prems True by auto
      have "search_double k n b ts timeKey l' r' = Some (search b ts timeKey l' r')"
        using w Suc.prems True by (intro Suc.IH) simp_all
      with st Continue True show ?thesis by (simp add: search_Continue)
    qed
  qed
qed

lemma timeToCoordinateRounded_double_agrees:
  assumes "exact_key_distances b ts (key b (convertHorzItemToInternal b tm))"
    and "visibleStrictRange ts = Some (lo, hi)"
    and "- (2 ^ 52) \<le> lo" "hi \<le> 2 ^ 52" "nat (hi - lo + 1) < n"
  shows "timeToCoordinateRounded_double n b ts tm = Some (timeToCoordinateRounded b ts tm)"
proof (cases "timeToCoordinate b ts tm")
  case (Some c)
  then show ?thesis
    by (simp add: timeToCoordinateRounded_double_def timeToCoordinateRounded_def)
next
  case None
  let ?k = "key b (convertHorzItemToInternal b tm)"
  have "search_double n n b ts ?k lo hi = Some (search b ts ?k lo hi)"
    using assms by (intro search_double_agrees) simp_all
  with None assms(2) show ?thesis
    by (simp add: timeToCoordinateRounded_double_def timeToCoordinateRounded_def
        del: search_double.simps)
qed

section \<open>Nearest-coordinate resolution on keys 1, 5, 9\<close>

text \<open>
  Claim C1. With present points at the logical indices 0, 1, 2 whose keys are 1, 5 and 9,
  the strict range (0, 2) and a target of key 7, which no point has,
  \<open>timeToCoordinateRounded\<close> returns the coordinate of index 2 (key 9, distance 2), not
  that of index 1 (key 5, distance 2).
\<close>

theorem nearest_1_5_9_target_7:
  assumes pts: "points ts = [(0, p0), (1, p1), (2, p2)]"
    and keys: "key b (time p0) = 1" "key b (time p1) = 5" "key b (time p2) = 9"
    and range: "visibleStrictRange ts = Some (0, 2)"
    and target: "key b (convertHorzItemToInternal b tm) = 7"
  shows "timeToCoordinateRounded b ts tm = Some (indexToCoordinate ts 2)"
proof -
  have exact: "timeToCoordinate b ts tm = None"
    using pts keys target by (simp add: timeToCoordinate_def timeToIndex_def)
  have s1: "search_step b ts 7 0 2 = Continue 2 2"
    using pts keys by (simp add: search_step_def indexToTimeScalePoint_def)
  have s2: "search_step b ts 7 2 2 = Continue 2 1"
    using pts keys by (simp add: search_step_def indexToTimeScalePoint_def)
  have s3: "closest_boundary b ts 7 2 1 = Some (indexToCoordinate ts 2)"
    using pts keys by (simp add: closest_boundary_def indexToTimeScalePoint_def)
  have "search b ts 7 0 2 = search b ts 7 2 2"
    using s1 by (simp add: search_Continue)
  also have "\<dots> = search b ts 7 2 1"
    using s2 by (simp add: search_Continue)
  also have "\<dots> = Some (indexToCoordinate ts 2)"
    using s3 by (simp add: search_crossed)
  finally show ?thesis
    using exact range target by (simp add: timeToCoordinateRounded_def)
qed

theorem nearest_1_5_9_target_7_witness:
  "timeToCoordinateRounded ex_behavior scale_1_5_9 7 = Some 20
   \<and> indexToCoordinate scale_1_5_9 2 = 20 \<and> indexToCoordinate scale_1_5_9 1 = 10"
  using nearest_1_5_9_target_7 [of scale_1_5_9 "ex_point 1" "ex_point 5" "ex_point 9" ex_behavior 7]
  by (simp add: scale_1_5_9_def ex_scale_def ex_behavior_def ex_point_def)

section \<open>The tie at the two final boundaries\<close>

text \<open>
  Claim C2, as amended. When the loop is left with \<open>right < left\<close>, the points at both
  boundary indices are present and their keys are equally far from the target key, the
  method returns the coordinate of the index held by \<open>left\<close>: after the crossing that is
  the higher (later) of the two boundary indices.
\<close>

theorem boundary_tie_prefers_left:
  assumes "right < left"
    and "indexToTimeScalePoint ts left = Some leftPoint"
    and "indexToTimeScalePoint ts right = Some rightPoint"
    and "abs (key b (time leftPoint) - timeKey) = abs (key b (time rightPoint) - timeKey)"
  shows "search b ts timeKey left right = Some (indexToCoordinate ts left)"
  using assms by (simp add: search_crossed closest_boundary_def)

theorem boundary_tie_prefers_left_witness:
  "search ex_behavior scale_1_5_9 7 2 1 = Some 20"
  using boundary_tie_prefers_left [of 1 2 scale_1_5_9 "ex_point 9" "ex_point 5" ex_behavior 7]
  by (simp add: indexToTimeScalePoint_def scale_1_5_9_def ex_defs)

text \<open>
  Claim C2 as first stated, that the lower of the two boundary indices is returned on a
  tie, fails on keys 1, 5, 9 and target 7: the loop goes from the window (0, 2) to (2, 2)
  and to (2, 1), the boundaries 2 and 1 are both at distance 2, and the method returns the
  coordinate of index 2.
\<close>

theorem boundary_tie_prefers_lower_counterexample:
  "timeToCoordinateRounded ex_behavior scale_1_5_9 7 = Some (indexToCoordinate scale_1_5_9 2)
   \<and> search_step ex_behavior scale_1_5_9 7 0 2 = Continue 2 2
   \<and> search_step ex_behavior scale_1_5_9 7 2 2 = Continue 2 1
   \<and> indexToTimeScalePoint scale_1_5_9 2 = Some (ex_point 9)
   \<and> indexToTimeScalePoint scale_1_5_9 1 = Some (ex_point 5)
   \<and> abs (key ex_behavior (time (ex_point 9)) - 7) = abs (key ex_behavior (time (ex_point 5)) - 7)
   \<and> search ex_behavior scale_1_5_9 7 2 1 = Some (indexToCoordinate scale_1_5_9 2)
   \<and> search ex_behavior scale_1_5_9 7 2 1 \<noteq> Some (indexToCoordinate scale_1_5_9 1)
   \<and> timeToCoordinateRounded ex_behavior scale_1_5_9 7
       \<noteq> Some (indexToCoordinate scale_1_5_9 1)"
proof -
  have s1: "search_step ex_behavior scale_1_5_9 7 0 2 = Continue 2 2"
    by (simp add: search_step_def indexToTimeScalePoint_def scale_1_5_9_def ex_defs)
  have s2: "search_step ex_behavior scale_1_5_9 7 2 2 = Continue 2 1"
    by (simp add: search_step_def indexToTimeScalePoint_def scale_1_5_9_def ex_defs)
  have s3: "search ex_behavior scale_1_5_9 7 2 1 = Some (indexToCoordinate scale_1_5_9 2)"
    by (simp add: search_crossed closest_boundary_def indexToTimeScalePoint_def
        scale_1_5_9_def ex_defs)
  have "search ex_behavior scale_1_5_9 7 0 2 = Some (indexToCoordinate scale_1_5_9 2)"
    using s1 s2 s3 by (simp add: search_Continue)
  then have whole:
    "timeToCoordinateRounded ex_behavior scale_1_5_9 7 = Some (indexToCoordinate scale_1_5_9 2)"
    by (simp add: timeToCoordinateRounded_def timeToCoordinate_def timeToIndex_def
        scale_1_5_9_def ex_defs)
  have pts: "indexToTimeScalePoint scale_1_5_9 2 = Some (ex_point 9)"
    "indexToTimeScalePoint scale_1_5_9 1 = Some (ex_point 5)"
    by (simp_all add: indexToTimeScalePoint_def scale_1_5_9_def ex_defs)
  have tie: "abs (key ex_behavior (time (ex_point 9)) - 7)
      = abs (key ex_behavior (time (ex_point 5)) - 7)"
    by (simp add: ex_defs)
  have apart: "indexToCoordinate scale_1_5_9 2 \<noteq> indexToCoordinate scale_1_5_9 1"
    by (simp add: scale_1_5_9_def ex_defs)
  from whole s1 s2 pts tie s3 apart show ?thesis by simp
qed

section \<open>A gap beside an exact match\<close>



section \<open>When the rounded lookup is absent\<close>




section \<open>Exact-match semantics of timeToCoordinate\<close>

text \<open>
  Claim C5. \<open>timeToCoordinate\<close> returns absent exactly when no present point has the
  key of the converted time; a coordinate it returns is \<open>indexToCoordinate\<close> of an index
  whose point has exactly that key, never of a merely nearest one; and when the point of
  that key is at index \<open>i\<close> only, it returns \<open>indexToCoordinate i\<close>.
\<close>

theorem timeToCoordinate_exact:
  "(timeToCoordinate b ts tm = None \<longleftrightarrow>
      \<not> (\<exists>i p. indexToTimeScalePoint ts i = Some p
            \<and> key b (time p) = key b (convertHorzItemToInternal b tm)))
   \<and> (\<forall>c. timeToCoordinate b ts tm = Some c \<longrightarrow>
        (\<exists>i p. indexToTimeScalePoint ts i = Some p
            \<and> key b (time p) = key b (convertHorzItemToInternal b tm)
            \<and> c = indexToCoordinate ts i))
   \<and> (\<forall>i p. indexToTimeScalePoint ts i = Some p
          \<and> key b (time p) = key b (convertHorzItemToInternal b tm)
          \<and> (\<forall>j q. indexToTimeScalePoint ts j = Some q
                \<and> key b (time q) = key b (convertHorzItemToInternal b tm) \<longrightarrow> j = i)
        \<longrightarrow> timeToCoordinate b ts tm = Some (indexToCoordinate ts i))"
proof -
  let ?tp = "convertHorzItemToInternal b tm"
  have "timeToCoordinate b ts tm = None \<longleftrightarrow> timeToIndex b ts ?tp False = None"
    by (simp add: timeToCoordinate_def split: option.splits)
  also have "\<dots> \<longleftrightarrow>
      \<not> (\<exists>i p. indexToTimeScalePoint ts i = Some p \<and> key b (time p) = key b ?tp)"
    by (rule timeToIndex_None_iff)
  finally have none: "timeToCoordinate b ts tm = None \<longleftrightarrow>
      \<not> (\<exists>i p. indexToTimeScalePoint ts i = Some p \<and> key b (time p) = key b ?tp)" .
  have some: "\<exists>i p. indexToTimeScalePoint ts i = Some p \<and> key b (time p) = key b ?tp
        \<and> c = indexToCoordinate ts i"
    if "timeToCoordinate b ts tm = Some c" for c
  proof -
    from that obtain i where i: "timeToIndex b ts ?tp False = Some i" "c = indexToCoordinate ts i"
      by (auto simp: timeToCoordinate_def split: option.splits)
    with timeToIndex_Some [OF i(1)] show ?thesis by blast
  qed
  have unique: "timeToCoordinate b ts tm = Some (indexToCoordinate ts i)"
    if p: "indexToTimeScalePoint ts i = Some p" "key b (time p) = key b ?tp"
      and u: "\<forall>j q. indexToTimeScalePoint ts j = Some q \<and> key b (time q) = key b ?tp \<longrightarrow> j = i"
    for i p
  proof -
    from p have "timeToIndex b ts ?tp False \<noteq> None"
      by (auto simp: timeToIndex_None_iff)
    then obtain j where j: "timeToIndex b ts ?tp False = Some j" by auto
    from timeToIndex_Some [OF j] u have "j = i" by blast
    with j show ?thesis by (simp add: timeToCoordinate_def)
  qed
  show ?thesis
  proof (intro conjI allI impI)
    show "timeToCoordinate b ts tm = None \<longleftrightarrow>
      \<not> (\<exists>i p. indexToTimeScalePoint ts i = Some p \<and> key b (time p) = key b ?tp)"
      by (rule none)
  next
    fix c
    assume "timeToCoordinate b ts tm = Some c"
    then show "\<exists>i p. indexToTimeScalePoint ts i = Some p \<and> key b (time p) = key b ?tp
        \<and> c = indexToCoordinate ts i"
      by (rule some)
  next
    fix i p
    assume "indexToTimeScalePoint ts i = Some p \<and> key b (time p) = key b ?tp
      \<and> (\<forall>j q. indexToTimeScalePoint ts j = Some q \<and> key b (time q) = key b ?tp \<longrightarrow> j = i)"
    then show "timeToCoordinate b ts tm = Some (indexToCoordinate ts i)"
      using unique by blast
  qed
qed

theorem timeToCoordinate_exact_witness:
  "timeToCoordinate ex_behavior scale_1_5_9 5 = Some 10
   \<and> timeToCoordinate ex_behavior scale_1_5_9 7 = None"
proof -
  have a: "timeToCoordinate ex_behavior scale_1_5_9 5 = Some (indexToCoordinate scale_1_5_9 1)"
    using timeToCoordinate_exact [of ex_behavior scale_1_5_9 5,
        THEN conjunct2, THEN conjunct2, rule_format, of 1 "ex_point 5"]
    by (auto simp: indexToTimeScalePoint_def scale_1_5_9_def ex_defs split: if_splits)
  have b: "timeToCoordinate ex_behavior scale_1_5_9 7 = None"
    using timeToCoordinate_exact [of ex_behavior scale_1_5_9 7, THEN conjunct1]
    by (auto simp: indexToTimeScalePoint_def scale_1_5_9_def ex_defs split: if_splits)
  from a b show ?thesis by (simp add: scale_1_5_9_def ex_defs)
qed

section \<open>The guard of setVisibleLogicalRange\<close>

text \<open>
  Claim C6. Called with \<open>from > to\<close>, \<open>setVisibleLogicalRange\<close> fails with the
  assertion and leaves the model's state as it was, whatever \<open>setTargetLogicalRange\<close>
  would have done: it is not invoked. Called with \<open>from \<le> to\<close>, the assertion passes
  and the state is the one \<open>setTargetLogicalRange\<close> gives for that range.
\<close>

theorem setVisibleLogicalRange_guard:
  "(range_to rng < range_from rng \<longrightarrow>
      setVisibleLogicalRange setTargetLogicalRange model rng =
        (model, Some (AssertionFailed ''The from index cannot be after the to index.'')))
   \<and> (range_from rng \<le> range_to rng \<longrightarrow>
      setVisibleLogicalRange setTargetLogicalRange model rng =
        (setTargetLogicalRange model rng, None))"
  by (auto simp: setVisibleLogicalRange_def assert_def)

theorem setVisibleLogicalRange_guard_witness:
  "setVisibleLogicalRange log_target [] \<lparr>range_from = 10 :: int, range_to = 3\<rparr> =
     ([], Some (AssertionFailed ''The from index cannot be after the to index.''))
   \<and> setVisibleLogicalRange log_target [] \<lparr>range_from = 3 :: int, range_to = 10\<rparr> =
     ([\<lparr>range_from = 3, range_to = 10\<rparr>], None)"
  using setVisibleLogicalRange_guard [of "\<lparr>range_from = 10 :: int, range_to = 3\<rparr>" log_target "[]"]
    setVisibleLogicalRange_guard [of "\<lparr>range_from = 3 :: int, range_to = 10\<rparr>" log_target "[]"]
  by (simp add: log_target_def)

section \<open>Probing around an absent midpoint\<close>



section \<open>Logical indices and coordinates on an empty scale\<close>

text \<open>
  Claim C8. \<open>logicalToCoordinate\<close> and \<open>coordinateToLogical\<close> return absent exactly when
  the time scale is empty; on an empty scale they return null and raise nothing, and on a
  scale with data they return what \<open>indexToCoordinate\<close> and \<open>coordinateToIndex\<close> give.
\<close>

theorem logical_coordinate_absent_iff_empty:
  "(logicalToCoordinate ts logical = None \<longleftrightarrow> isEmpty ts)
   \<and> (coordinateToLogical ts x = None \<longleftrightarrow> isEmpty ts)
   \<and> (\<not> isEmpty ts \<longrightarrow>
        logicalToCoordinate ts logical = Some (indexToCoordinate ts logical)
        \<and> coordinateToLogical ts x = Some (coordinateToIndex ts x))"
  by (simp add: logicalToCoordinate_def coordinateToLogical_def)

theorem logical_coordinate_absent_iff_empty_witness:
  "logicalToCoordinate scale_1_5_9 1 = Some 10
   \<and> coordinateToLogical scale_1_5_9 25 = Some 2
   \<and> logicalToCoordinate scale_empty 1 = None
   \<and> coordinateToLogical scale_empty 25 = None"
  using logical_coordinate_absent_iff_empty [of scale_1_5_9 1 25]
    logical_coordinate_absent_iff_empty [of scale_empty 1 25]
  by (simp add: scale_1_5_9_def scale_empty_def ex_defs)

section \<open>Handlers fire only for listeners\<close>

text \<open>
  Claim C9. The handlers of the visible time range and of the visible logical range
  build their payload and fire their delegate when the delegate has listeners, each
  listener receiving the payload once, in order; with no listener they build no payload
  and invoke nothing.
\<close>

theorem handlers_fire_only_with_listeners:
  "(hasListeners timeRangeChanged \<longrightarrow>
      onVisibleBarsChanged timeRangeChanged ts =
        Constructed (getVisibleRange ts)
          # map (\<lambda>listener. Invoked listener (getVisibleRange ts)) timeRangeChanged)
   \<and> (\<not> hasListeners timeRangeChanged \<longrightarrow> onVisibleBarsChanged timeRangeChanged ts = [])
   \<and> (hasListeners logicalRangeChanged \<longrightarrow>
      onVisibleLogicalRangeChanged logicalRangeChanged ts =
        Constructed (getVisibleLogicalRange ts)
          # map (\<lambda>listener. Invoked listener (getVisibleLogicalRange ts)) logicalRangeChanged)
   \<and> (\<not> hasListeners logicalRangeChanged \<longrightarrow>
      onVisibleLogicalRangeChanged logicalRangeChanged ts = [])"
  by (simp add: onVisibleBarsChanged_def onVisibleLogicalRangeChanged_def fire_def Let_def)

theorem handlers_fire_only_with_listeners_witness:
  "onVisibleBarsChanged [''a'', ''b''] scale_ranges =
     [Constructed (Some \<lparr>range_from = 1, range_to = 9\<rparr>),
      Invoked ''a'' (Some \<lparr>range_from = 1, range_to = 9\<rparr>),
      Invoked ''b'' (Some \<lparr>range_from = 1, range_to = 9\<rparr>)]
   \<and> onVisibleBarsChanged ([] :: string list) scale_ranges = []
   \<and> onVisibleLogicalRangeChanged [''a''] scale_ranges =
     [Constructed (Some \<lparr>range_from = 0, range_to = 2\<rparr>),
      Invoked ''a'' (Some \<lparr>range_from = 0, range_to = 2\<rparr>)]
   \<and> onVisibleLogicalRangeChanged ([] :: string list) scale_ranges = []"
  using handlers_fire_only_with_listeners [of "[''a'', ''b'']" scale_ranges "[''a'']"]
    handlers_fire_only_with_listeners [of "[] :: string list" scale_ranges "[] :: string list"]
  by (simp add: hasListeners_def getVisibleRange_def getVisibleLogicalRange_def
      scale_ranges_def ex_defs)

section \<open>Termination of the rounded lookup\<close>

text \<open>
  Claim C10, as amended. For a window with \<open>-2^53 < left \<le> right < 2^53\<close>, every pass
  through the loop body, computed in double arithmetic, either returns or goes on with
  a strictly smaller window: \<open>left\<close> becomes \<open>mid + 1\<close> or \<open>right\<close> becomes \<open>mid - 1\<close>,
  where \<open>left \<le> mid \<le> right\<close>, so \<open>right - left\<close> decreases. Hence
  \<open>timeToCoordinateRounded\<close> returns, for every time input, whenever the visible strict
  range is null or has its left bound above \<open>-2^53\<close> and its right bound below \<open>2^53\<close>:
  some bound on the loop tests is enough.
\<close>

theorem timeToCoordinateRounded_terminates_in_safe_range:
  "(- (2 ^ 53) < left \<and> left \<le> right \<and> right < 2 ^ 53
      \<and> search_step_double n b ts timeKey left right = Some (Continue l' r') \<longrightarrow>
      left \<le> js_add left right div 2 \<and> js_add left right div 2 \<le> right
      \<and> ((l' = js_add left right div 2 + 1 \<and> r' = right)
         \<or> (l' = left \<and> r' = js_add left right div 2 - 1))
      \<and> r' - l' < right - left)
   \<and> ((\<forall>lo hi. visibleStrictRange ts = Some (lo, hi) \<longrightarrow> - (2 ^ 53) < lo \<and> hi < 2 ^ 53) \<longrightarrow>
        (\<exists>m. timeToCoordinateRounded_double m b ts tm \<noteq> None))"
proof -
  have step: "left \<le> js_add left right div 2 \<and> js_add left right div 2 \<le> right
      \<and> ((l' = js_add left right div 2 + 1 \<and> r' = right)
         \<or> (l' = left \<and> r' = js_add left right div 2 - 1))
      \<and> r' - l' < right - left"
    if "- (2 ^ 53) < left" "left \<le> right" "right < 2 ^ 53"
      "search_step_double n b ts timeKey left right = Some (Continue l' r')"
    using search_step_double_Continue [OF that] by auto
  have whole: "\<exists>m. timeToCoordinateRounded_double m b ts tm \<noteq> None"
    if safe: "\<forall>lo hi. visibleStrictRange ts = Some (lo, hi) \<longrightarrow> - (2 ^ 53) < lo \<and> hi < 2 ^ 53"
  proof (cases "timeToCoordinate b ts tm")
    case (Some c)
    then show ?thesis by (simp add: timeToCoordinateRounded_double_def)
  next
    case None
    show ?thesis
    proof (cases "visibleStrictRange ts")
      case none: None
      with None show ?thesis by (simp add: timeToCoordinateRounded_double_def)
    next
      case (Some lr)
      obtain lo hi where lr: "lr = (lo, hi)" by (cases lr)
      with Some safe have bounds: "- (2 ^ 53) < lo" "hi < 2 ^ 53" by simp_all
      let ?k = "key b (convertHorzItemToInternal b tm)"
      let ?m = "Suc (nat (hi - lo + 1))"
      have "search_double ?m ?m b ts ?k lo hi \<noteq> None"
        using bounds by (intro search_double_returns) simp_all
      with None Some lr have "timeToCoordinateRounded_double ?m b ts tm \<noteq> None"
        by (simp add: timeToCoordinateRounded_double_def del: search_double.simps)
      then show ?thesis by (rule exI)
    qed
  qed
  from step whole show ?thesis by blast
qed

theorem timeToCoordinateRounded_terminates_in_safe_range_witness:
  "search_step_double 4 ex_behavior scale_1_5_9 7 0 2 = Some (Continue 2 2)
   \<and> (2 :: int) - 2 < 2 - 0
   \<and> (\<exists>m. timeToCoordinateRounded_double m ex_behavior scale_1_5_9 7 \<noteq> None)
   \<and> timeToCoordinateRounded_double 4 ex_behavior scale_1_5_9 7 = Some (Some 20)"
proof -
  have add: "js_add 0 2 = 2" "js_add 1 1 = 2" "js_add 2 2 = 4"
    by (simp_all add: js_add_def to_double_exact)
  have sub: "js_sub 2 1 = 1" "js_sub 5 7 = - 2" "js_sub 9 7 = 2" "js_sub 1 1 = 0"
    by (simp_all add: js_sub_def to_double_exact)
  have s: "search_step_double 4 ex_behavior scale_1_5_9 7 0 2 = Some (Continue 2 2)"
    using add sub
    by (simp add: search_step_double_def indexToTimeScalePoint_def scale_1_5_9_def ex_defs)
  have e: "\<exists>m. timeToCoordinateRounded_double m ex_behavior scale_1_5_9 7 \<noteq> None"
    using timeToCoordinateRounded_terminates_in_safe_range
      [of 0 2 4 ex_behavior scale_1_5_9 7 2 2 7]
    by (simp add: scale_1_5_9_def ex_scale_def)
  have s2: "search_step_double 4 ex_behavior scale_1_5_9 7 2 2 = Some (Continue 2 1)"
    using add sub
    by (simp add: search_step_double_def indexToTimeScalePoint_def scale_1_5_9_def ex_defs)
  have c: "closest_boundary_double ex_behavior scale_1_5_9 7 2 1 = Some 20"
    using sub
    by (simp add: closest_boundary_double_def indexToTimeScalePoint_def scale_1_5_9_def ex_defs)
  have "search_double 4 4 ex_behavior scale_1_5_9 7 0 2 = Some (Some 20)"
    using s s2 c by (simp add: numeral_nat)
  then have w: "timeToCoordinateRounded_double 4 ex_behavior scale_1_5_9 7 = Some (Some 20)"
    by (simp add: timeToCoordinateRounded_double_def timeToCoordinate_def timeToIndex_def
        scale_1_5_9_def ex_defs del: search_double.simps)
  from s e w show ?thesis by simp
qed

text \<open>
  Claim C10 as first stated, for every visible strict range, fails at the strict range
  \<open>(2^53, 2^53)\<close> with a point of key 1 at that index and target key 4: \<open>mid\<close> is
  \<open>2^53\<close>, its key is below the target, \<open>right - 1\<close> is \<open>2^53 - 1\<close> and not \<open>left\<close>, and
  \<open>mid + 1\<close> rounds back to \<open>2^53\<close>. The pass goes on with the window it started from,
  and the method has not returned after a thousand tests; by the lemma that follows, it
  returns for no bound.
\<close>

theorem every_strict_range_terminates_counterexample:
  "visibleStrictRange scale_2_53 = Some (2 ^ 53, 2 ^ 53)
   \<and> indexToTimeScalePoint scale_2_53 (2 ^ 53) = Some (ex_point 1)
   \<and> search_step_double 1 ex_behavior scale_2_53 4 (2 ^ 53) (2 ^ 53)
       = Some (Continue (2 ^ 53) (2 ^ 53))
   \<and> timeToCoordinateRounded_double 1000 ex_behavior scale_2_53 4 = None"
proof -
  have "search_double 1000 1000 ex_behavior scale_2_53 4 (2 ^ 53) (2 ^ 53) = None"
    by (rule never_returns_at_2_53)
  then have "timeToCoordinateRounded_double 1000 ex_behavior scale_2_53 4 = None"
    by (simp add: timeToCoordinateRounded_double_def timeToCoordinate_def timeToIndex_def
        scale_2_53_def ex_defs del: search_double.simps)
  moreover have "indexToTimeScalePoint scale_2_53 (2 ^ 53) = Some (ex_point 1)"
    by (simp add: indexToTimeScalePoint_def scale_2_53_def ex_defs)
  moreover have "visibleStrictRange scale_2_53 = Some (2 ^ 53, 2 ^ 53)"
    by (simp add: scale_2_53_def ex_defs)
  ultimately show ?thesis
    using stuck_step [of 1] by simp
qed

lemma never_returns_on_scale_2_53:
  "timeToCoordinateRounded_double m ex_behavior scale_2_53 4 = None"
proof -
  have "search_double m m ex_behavior scale_2_53 4 (2 ^ 53) (2 ^ 53) = None"
    by (rule never_returns_at_2_53)
  then show ?thesis
    by (simp add: timeToCoordinateRounded_double_def timeToCoordinate_def timeToIndex_def
        scale_2_53_def ex_defs del: search_double.simps)
qed

end
